theory Spec2Isabelle
  imports Main "HOL-Library.AList"
begin

section \<open>Data model of the chat client\<close>

text \<open>
  The realtime logic of the repository lives in the React component \<open>EnhancedChat\<close>
  (two variants: the one with \<open>receive_message\<close>, \<open>messages_read\<close> and
  \<open>message_delivered\<close> handlers, called the socket variant below, and the one with the
  debounced typing emit, called the debounced variant), in \<open>MessageBubble\<close> and in
  \<open>SocketProvider\<close>. Component state becomes an explicit argument and result of each
  handler; an optional field \<open>f?: T\<close> becomes \<open>T option\<close> with \<open>None\<close> for
  \<open>undefined\<close>.
\<close>

definition truthy :: "string option \<Rightarrow> bool" where
  \<comment> \<open>JavaScript truthiness of a \<open>string | undefined\<close>: \<open>undefined\<close> and \<open>''\<close> are falsy.\<close>
  "truthy s = (case s of None \<Rightarrow> False | Some v \<Rightarrow> v \<noteq> [])"

text \<open>
  One value of the \<open>delivery_status\<close> record of a message. The declared type has
  \<open>delivered\<close>, \<open>read\<close> and \<open>read_at\<close>; the \<open>message_delivered\<close> handler also
  writes \<open>delivered_at\<close> (through \<open>as any\<close>) and leaves \<open>read\<close> out, so every field is
  optional here.
\<close>

record delivery_entry =
  delivered :: "bool option"
  read :: "bool option"
  read_at :: "string option"
  delivered_at :: "string option"

text \<open>
  The two fields of a quoted message that a bubble prints. Both are optional here: the value
  a bubble is given as its quote may be something other than a message, and then has neither.
\<close>

record quoted =
  quoted_sender_name :: "string option"
  quoted_content :: "string option"

text \<open>
  \<open>interface Message\<close> (the fields of both variants). The field \<open>id\<close> is named
  \<open>id_msg\<close> (\<open>id\<close> is the identity function of HOL). Of \<open>quoted_message\<close>, itself a
  message, the record keeps what a bubble prints. A JavaScript object keeps its own string
  keys in insertion order, and an assignment to an existing key keeps the key's place:
  \<open>delivery_status\<close> is an association list written with \<open>AList.update\<close>.
\<close>

record message =
  id_msg :: string
  sender_id :: string
  receiver_id :: "string option"
  group_id :: "string option"
  group_chat_id :: "string option"
  content :: string
  reply_to :: "string option"
  edited :: bool
  edited_at :: "string option"
  deleted :: bool
  reactions :: "(string \<times> string) list option"
  delivery_status :: "(string \<times> delivery_entry) list option"
  created_at :: string
  sender_name :: "string option"
  reply_to_content :: "string option"
  quoted_message :: "quoted option"
  type :: "string option"
  attachment_url :: "string option"
  attachment_name :: "string option"

text \<open>
  What a handler closes over: the props \<open>chatId\<close>, \<open>isGroup\<close>, \<open>receiverId\<close> of
  \<open>EnhancedChat\<close> and \<open>user?.id\<close> of the auth context.
\<close>

record chat_props =
  chatId :: string
  isGroup :: bool
  receiverId :: "string option"
  user_id :: "string option"

text \<open>Requests and sounds a handler issues besides updating the message list.\<close>

datatype effect =
  PlaySound
  | PostMarkAllRead "string option" "string option"
  | PostGroupMarkRead string
  | PostMarkDelivered string

section \<open>Socket handlers of the socket variant\<close>

definition append_unless_present :: "message \<Rightarrow> message list \<Rightarrow> message list" where
  \<comment> \<open>\<open>prev => prev.some(m => m.id === message.id) ? prev : [...prev, message]\<close>\<close>
  "append_unless_present msg prev =
     (if list_ex (\<lambda>m. id_msg m = id_msg msg) prev then prev else prev @ [msg])"

definition is_direct_for :: "chat_props \<Rightarrow> message \<Rightarrow> bool" where
  \<comment> \<open>the 1:1 guard shared by the message handlers\<close>
  "is_direct_for p msg =
     ((Some (sender_id msg) = receiverId p \<and> receiver_id msg = user_id p) \<or>
      (Some (sender_id msg) = user_id p \<and> receiver_id msg = receiverId p))"

definition handleNewMessage :: "chat_props \<Rightarrow> message \<Rightarrow> message list \<Rightarrow> message list \<times> effect list" where
  "handleNewMessage p msg prev =
     (if \<not> isGroup p \<and> is_direct_for p msg then
        (append_unless_present msg prev,
         if Some (sender_id msg) \<noteq> user_id p
         then PlaySound # (if truthy (user_id p) then [PostMarkAllRead (receiverId p) None] else [])
         else [])
      else (prev, []))"

definition handleGroupMessage :: "chat_props \<Rightarrow> message \<Rightarrow> message list \<Rightarrow> message list \<times> effect list" where
  "handleGroupMessage p msg prev =
     (if isGroup p \<and> group_chat_id msg = Some (chatId p) then
        (append_unless_present msg prev,
         if Some (sender_id msg) \<noteq> user_id p
         then PlaySound # (if truthy (user_id p) then [PostGroupMarkRead (chatId p)] else [])
         else [])
      else (prev, []))"

definition handleReceiveMessage :: "chat_props \<Rightarrow> message \<Rightarrow> message list \<Rightarrow> message list \<times> effect list" where
  "handleReceiveMessage p msg prev =
     (if (isGroup p \<and> (group_id msg = Some (chatId p) \<or> group_chat_id msg = Some (chatId p))) \<or>
         (\<not> isGroup p \<and> is_direct_for p msg) then
        (append_unless_present msg prev,
         if Some (sender_id msg) \<noteq> user_id p
         then (if isGroup p then [PostGroupMarkRead (chatId p)]
               else [PostMarkAllRead (receiverId p) None, PostMarkDelivered (id_msg msg)])
         else [])
      else (prev, []))"

definition handleMessageUpdate :: "message \<Rightarrow> message list \<Rightarrow> message list" where
  "handleMessageUpdate updatedMessage prev =
     map (\<lambda>msg. if id_msg msg = id_msg updatedMessage then updatedMessage else msg) prev"

definition handleMessageDelete :: "string \<Rightarrow> message list \<Rightarrow> message list" where
  \<comment> \<open>\<open>prev.map(msg => msg.id === data.message_id ? { ...msg, deleted: true } : msg)\<close>\<close>
  "handleMessageDelete message_id prev =
     map (\<lambda>msg. if id_msg msg = message_id then msg\<lparr>deleted := True\<rparr> else msg) prev"

definition handleMessageEdited :: "string \<Rightarrow> string \<Rightarrow> bool \<Rightarrow> string \<Rightarrow> message list \<Rightarrow> message list" where
  "handleMessageEdited mid new_content new_edited new_edited_at prev =
     map (\<lambda>msg. if id_msg msg = mid
                 then msg\<lparr>content := new_content, edited := new_edited, edited_at := Some new_edited_at\<rparr>
                 else msg) prev"

definition status_or_empty :: "message \<Rightarrow> (string \<times> delivery_entry) list" where
  \<comment> \<open>\<open>{ ...(m.delivery_status || {}) }\<close>\<close>
  "status_or_empty m = (case delivery_status m of None \<Rightarrow> [] | Some ds \<Rightarrow> ds)"

definition read_entry :: "string option \<Rightarrow> delivery_entry" where
  \<comment> \<open>\<open>{ delivered: true, read: true, read_at: ts }\<close>\<close>
  "read_entry ts = \<lparr>delivered = Some True, read = Some True, read_at = ts, delivered_at = None\<rparr>"

definition delivered_entry :: "string option \<Rightarrow> delivery_entry" where
  \<comment> \<open>\<open>{ delivered: true, delivered_at: data.timestamp }\<close>\<close>
  "delivered_entry ts = \<lparr>delivered = Some True, read = None, read_at = None, delivered_at = ts\<rparr>"

definition key_of :: "string option \<Rightarrow> string" where
  \<comment> \<open>a property key: \<open>undefined\<close> is converted to the string \<open>undefined\<close>\<close>
  "key_of k = (case k of None \<Rightarrow> ''undefined'' | Some s \<Rightarrow> s)"

definition on_messages_read :: "chat_props \<Rightarrow> string option \<Rightarrow> string option \<Rightarrow> message list \<Rightarrow> message list" where
  \<comment> \<open>the \<open>messages_read\<close> handler; its payload is \<open>receiver_id?\<close> and \<open>timestamp?\<close>\<close>
  "on_messages_read p data_receiver_id data_timestamp prev =
     (if \<not> isGroup p \<and> truthy data_receiver_id \<and> data_receiver_id = receiverId p then
        map (\<lambda>m. if Some (sender_id m) = user_id p \<and> receiver_id m = receiverId p
                  then m\<lparr>delivery_status :=
                          Some (AList.update (key_of (receiverId p)) (read_entry data_timestamp)
                                  (status_or_empty m))\<rparr>
                  else m) prev
      else prev)"

definition on_message_delivered :: "string \<Rightarrow> string option \<Rightarrow> string option \<Rightarrow> message list \<Rightarrow> message list" where
  \<comment> \<open>the \<open>message_delivered\<close> handler; its payload is \<open>messageId\<close>, \<open>receiver_id?\<close>, \<open>timestamp?\<close>\<close>
  "on_message_delivered messageId data_receiver_id data_timestamp prev =
     map (\<lambda>m. if id_msg m = messageId
               then m\<lparr>delivery_status :=
                       Some (AList.update (key_of data_receiver_id) (delivered_entry data_timestamp)
                               (status_or_empty m))\<rparr>
               else m) prev"


text \<open>The events the socket variant subscribes to that touch the message list.\<close>

datatype event =
  NewMessage message
  | GroupMessage message
  | ReceiveMessage message
  | MessageUpdated message
  | MessageEdited string string bool string
  | MessageDeleted string
  | MessagesRead "string option" "string option"
  | MessageDelivered string "string option" "string option"

fun socket_step :: "chat_props \<Rightarrow> event \<Rightarrow> message list \<Rightarrow> message list \<times> effect list" where
  "socket_step p (NewMessage m) prev = handleNewMessage p m prev"
| "socket_step p (GroupMessage m) prev = handleGroupMessage p m prev"
| "socket_step p (ReceiveMessage m) prev = handleReceiveMessage p m prev"
| "socket_step p (MessageUpdated m) prev = (handleMessageUpdate m prev, [])"
| "socket_step p (MessageEdited i c e t) prev = (handleMessageEdited i c e t prev, [])"
| "socket_step p (MessageDeleted i) prev = (handleMessageDelete i prev, [])"
| "socket_step p (MessagesRead r t) prev = (on_messages_read p r t prev, [])"
| "socket_step p (MessageDelivered i r t) prev = (on_message_delivered i r t prev, [])"

fun socket_run :: "chat_props \<Rightarrow> event list \<Rightarrow> message list \<Rightarrow> message list" where
  "socket_run p [] prev = prev"
| "socket_run p (e # es) prev = socket_run p es (fst (socket_step p e prev))"

section \<open>New-message handler of the debounced variant\<close>

definition handleNewMessage_debounced :: "chat_props \<Rightarrow> message \<Rightarrow> message list \<Rightarrow> message list \<times> effect list" where
  "handleNewMessage_debounced p msg prev =
     (if (isGroup p \<and> group_chat_id msg = Some (chatId p)) \<or> (\<not> isGroup p \<and> is_direct_for p msg) then
        (append_unless_present msg prev,
         if Some (sender_id msg) \<noteq> user_id p
         then PlaySound #
              (if truthy (user_id p)
               then [PostMarkAllRead (if isGroup p then None else receiverId p)
                                     (if isGroup p then Some (chatId p) else None)]
               else [])
         else [])
      else (prev, []))"

fun debounced_run :: "chat_props \<Rightarrow> message list \<Rightarrow> message list \<Rightarrow> message list" where
  "debounced_run p [] prev = prev"
| "debounced_run p (m # ms) prev = debounced_run p ms (fst (handleNewMessage_debounced p m prev))"

section \<open>MessageBubble\<close>

text \<open>
  \<open>message.delivery_status[key]\<close> on the plain object that \<open>delivery_status\<close> is: an own
  entry, or else, for a key that names a member of \<open>Object.prototype\<close>, that member (a
  function, or for \<open>__proto__\<close> the prototype itself: truthy, and without \<open>read\<close>,
  \<open>delivered\<close> or \<open>read_at\<close>), or else \<open>undefined\<close>.
\<close>

datatype looked_up = Entry delivery_entry | Inherited | Absent

definition object_prototype_names :: "string list" where
  "object_prototype_names =
     [''constructor'', ''__defineGetter__'', ''__defineSetter__'', ''hasOwnProperty'',
      ''__lookupGetter__'', ''__lookupSetter__'', ''isPrototypeOf'', ''propertyIsEnumerable'',
      ''toString'', ''valueOf'', ''__proto__'', ''toLocaleString'']"

definition lookup_status :: "(string \<times> delivery_entry) list \<Rightarrow> string \<Rightarrow> looked_up" where
  "lookup_status ds k =
     (case map_of ds k of
        Some e \<Rightarrow> Entry e
      | None \<Rightarrow> if k \<in> set object_prototype_names then Inherited else Absent)"

definition find_read :: "(string \<times> delivery_entry) list \<Rightarrow> delivery_entry option" where
  \<comment> \<open>\<open>Object.values(message.delivery_status).find(status => status.read)\<close>\<close>
  "find_read ds = List.find (\<lambda>status. read status = Some True) (map snd ds)"

definition deliveryStatus :: "bool \<Rightarrow> message \<Rightarrow> looked_up" where
  "deliveryStatus isOwn msg =
     (case delivery_status msg of
        None \<Rightarrow> Absent
      | Some ds \<Rightarrow>
          if isOwn then
            (if truthy (receiver_id msg) \<and> lookup_status ds (key_of (receiver_id msg)) \<noteq> Absent
             then lookup_status ds (key_of (receiver_id msg))
             else if truthy (group_chat_id msg)
               then (case find_read ds of None \<Rightarrow> Absent | Some st \<Rightarrow> Entry st)
             else Absent)
          else Absent)"

definition isRead :: "bool \<Rightarrow> message \<Rightarrow> bool" where
  \<comment> \<open>the truth value of \<open>isRead\<close> where the bubble tests it\<close>
  "isRead isOwn msg =
     (case deliveryStatus isOwn msg of
        Entry st \<Rightarrow> read st = Some True
      | Inherited \<Rightarrow> False
      | Absent \<Rightarrow> False)"

definition isDelivered :: "bool \<Rightarrow> message \<Rightarrow> bool" where
  "isDelivered isOwn msg =
     (case deliveryStatus isOwn msg of
        Entry st \<Rightarrow> delivered st = Some True
      | Inherited \<Rightarrow> False
      | Absent \<Rightarrow> False)"

definition readAt :: "bool \<Rightarrow> message \<Rightarrow> string option" where
  \<comment> \<open>\<open>read_at\<close> of the status when it is truthy, else \<open>undefined\<close>\<close>
  "readAt isOwn msg =
     (case deliveryStatus isOwn msg of
        Entry st \<Rightarrow> if truthy (read_at st) then read_at st else None
      | Inherited \<Rightarrow> None
      | Absent \<Rightarrow> None)"

definition or_else :: "string option \<Rightarrow> string \<Rightarrow> string" where
  \<comment> \<open>\<open>s || d\<close> for a \<open>string | undefined\<close>\<close>
  "or_else s d = (case s of None \<Rightarrow> d | Some v \<Rightarrow> if v = [] then d else v)"

text \<open>
  What a bubble prints, piece by piece in the order of the markup: the notice of a deleted
  message, the quote block, the sender's name, the attachment, the content, the edited mark,
  the reactions, the time (\<open>created_at\<close>, not formatted here), the tick and the time of
  reading. \<open>TickNone\<close> is the circle the socket variant prints in transparent colour and
  the empty text of the debounced variant. The menu and the reaction picker are left out.
\<close>

datatype tick = TickRead | TickDelivered | TickNone

datatype piece =
  DeletedNotice
  | QuoteSender string
  | QuoteContent string
  | ReplyingTo
  | SenderName string
  | ImagePiece string string
  | VideoPiece string
  | AudioPiece string
  | FileLink string string
  | Content string
  | EditedMark
  | Reaction string
  | Time string
  | TickMark tick
  | SeenAt string

definition tick_of :: "bool \<Rightarrow> message \<Rightarrow> tick" where
  \<comment> \<open>\<open>isRead ? read : isDelivered ? delivered : none\<close>\<close>
  "tick_of isOwn msg =
     (if isRead isOwn msg then TickRead else if isDelivered isOwn msg then TickDelivered else TickNone)"

definition quote_block :: "message \<Rightarrow> quoted option \<Rightarrow> piece list" where
  \<comment> \<open>\<open>message.reply_to && (quotedMessage || message.quoted_message)\<close> and the two lines
      it guards\<close>
  "quote_block msg quotedMessage =
     (if truthy (reply_to msg) then
        (case (case quotedMessage of Some q \<Rightarrow> Some q | None \<Rightarrow> quoted_message msg) of
           None \<Rightarrow> []
         | Some q \<Rightarrow> [QuoteSender (or_else (quoted_sender_name q) ''Someone''),
                      QuoteContent (or_else (quoted_content q) ''[Message]'')])
      else [])"

definition attachment_block :: "message \<Rightarrow> piece list" where
  "attachment_block msg =
     (if truthy (attachment_url msg) then
        (if type msg = Some ''image''
         then [ImagePiece (or_else (attachment_url msg) []) (or_else (attachment_name msg) ''Image'')]
         else []) @
        (if type msg = Some ''video'' then [VideoPiece (or_else (attachment_url msg) [])] else []) @
        (if type msg = Some ''audio'' then [AudioPiece (or_else (attachment_url msg) [])] else []) @
        (if type msg = Some ''document'' \<or> \<not> truthy (type msg) \<or> type msg = Some ''text''
         then [FileLink (or_else (attachment_url msg) []) (or_else (attachment_name msg) ''Download file'')]
         else [])
      else [])"

definition reaction_row :: "message \<Rightarrow> piece list" where
  \<comment> \<open>\<open>message.reactions && message.reactions.length > 0 && ...\<close>; a reaction is the pair of
      \<open>user_id\<close> and \<open>emoji\<close>\<close>
  "reaction_row msg =
     (case reactions msg of None \<Rightarrow> [] | Some rs \<Rightarrow> map (\<lambda>r. Reaction (snd r)) rs)"

definition MessageBubble :: "bool \<Rightarrow> message \<Rightarrow> quoted option \<Rightarrow> piece list" where
  \<comment> \<open>socket variant; the props are \<open>isOwn\<close>, \<open>message\<close>, \<open>quotedMessage\<close>\<close>
  "MessageBubble isOwn msg quotedMessage =
     (if deleted msg then [DeletedNotice]
      else
        quote_block msg quotedMessage @
        (if \<not> isOwn \<and> truthy (sender_name msg) then [SenderName (or_else (sender_name msg) [])] else []) @
        attachment_block msg @
        (if content msg \<noteq> [] then [Content (content msg)] else []) @
        (if edited msg then [EditedMark] else []) @
        reaction_row msg @
        [Time (created_at msg)] @
        (if isOwn then
           TickMark (tick_of isOwn msg) #
           (if isRead isOwn msg \<and> truthy (readAt isOwn msg)
            then [SeenAt (or_else (readAt isOwn msg) [])] else [])
         else []))"

definition MessageBubble_debounced :: "bool \<Rightarrow> message \<Rightarrow> piece list" where
  \<comment> \<open>debounced variant; the props are \<open>isOwn\<close> and \<open>message\<close>\<close>
  "MessageBubble_debounced isOwn msg =
     (if deleted msg then [DeletedNotice]
      else
        (if truthy (reply_to msg) \<and> truthy (reply_to_content msg)
         then [ReplyingTo, QuoteContent (or_else (reply_to_content msg) [])] else []) @
        (if \<not> isOwn \<and> truthy (sender_name msg) then [SenderName (or_else (sender_name msg) [])] else []) @
        [Content (content msg)] @
        (if edited msg then [EditedMark] else []) @
        reaction_row msg @
        [Time (created_at msg)] @
        (if isOwn then [TickMark (tick_of isOwn msg)] else []) @
        (if isOwn \<and> truthy (readAt isOwn msg) then [SeenAt (or_else (readAt isOwn msg) [])] else []))"

definition as_quoted :: "message \<Rightarrow> quoted" where
  \<comment> \<open>a message of the list given to a bubble as its \<open>quotedMessage\<close>\<close>
  "as_quoted m = \<lparr>quoted_sender_name = sender_name m, quoted_content = Some (content m)\<rparr>"


section \<open>Typing indicator of the receiving side\<close>

text \<open>
  The indicator is the state \<open>isTyping\<close> and the callbacks \<open>() => setIsTyping(false)\<close>
  scheduled with \<open>setTimeout\<close>. A scheduled callback is a pair of its handle and the time
  in milliseconds at which it is due; \<open>typingTimeout\<close> is the handle the handler keeps
  (the variable \<open>typingTimeout\<close> of the socket variant, \<open>typingTimeoutRef.current\<close> of
  the debounced variant). Handles count from 1, so a kept handle is truthy.
\<close>

record typing_state =
  isTyping :: bool
  typingTimeout :: "nat option"
  pending :: "(nat \<times> nat) list"
  next_handle :: nat

definition typing_init :: typing_state where
  "typing_init = \<lparr>isTyping = False, typingTimeout = None, pending = [], next_handle = 1\<rparr>"

definition setTimeout_hide :: "nat \<Rightarrow> nat \<Rightarrow> typing_state \<Rightarrow> typing_state" where
  \<comment> \<open>\<open>setTimeout(() => setIsTyping(false), delay)\<close> called at \<open>now\<close>, the handle dropped\<close>
  "setTimeout_hide now delay st =
     st\<lparr>pending := pending st @ [(next_handle st, now + delay)], next_handle := Suc (next_handle st)\<rparr>"

definition clearTimeout :: "nat option \<Rightarrow> typing_state \<Rightarrow> typing_state" where
  \<comment> \<open>\<open>clearTimeout(undefined)\<close> and clearing a callback that has run do nothing\<close>
  "clearTimeout h st =
     (case h of None \<Rightarrow> st | Some i \<Rightarrow> st\<lparr>pending := filter (\<lambda>t. fst t \<noteq> i) (pending st)\<rparr>)"

definition fire_due :: "nat \<Rightarrow> typing_state \<Rightarrow> typing_state" where
  \<comment> \<open>the clock reaches \<open>now\<close>: every callback due by then runs and is gone\<close>
  "fire_due now st =
     st\<lparr>isTyping := (if list_ex (\<lambda>t. snd t \<le> now) (pending st) then False else isTyping st),
        pending := filter (\<lambda>t. \<not> snd t \<le> now) (pending st)\<rparr>"

definition handleTyping :: "nat \<Rightarrow> typing_state \<Rightarrow> typing_state" where
  \<comment> \<open>socket variant, event \<open>typing\<close>:
      \<open>setIsTyping(true); clearTimeout(typingTimeout); typingTimeout = setTimeout(..., 3000)\<close>\<close>
  "handleTyping now st =
     (setTimeout_hide now 3000 (clearTimeout (typingTimeout st) (st\<lparr>isTyping := True\<rparr>)))
       \<lparr>typingTimeout := Some (next_handle st)\<rparr>"

definition handleGroupTyping :: "chat_props \<Rightarrow> string \<Rightarrow> string \<Rightarrow> nat \<Rightarrow> typing_state \<Rightarrow> typing_state" where
  \<comment> \<open>socket variant, event \<open>group_typing\<close> with payload \<open>userId\<close>, \<open>groupId\<close>:
      \<open>setIsTyping(true); setTimeout(() => setIsTyping(false), 3000)\<close>\<close>
  "handleGroupTyping p userId groupId now st =
     (if isGroup p \<and> groupId = chatId p \<and> Some userId \<noteq> user_id p
      then setTimeout_hide now 3000 (st\<lparr>isTyping := True\<rparr>)
      else st)"

text \<open>\<open>TypingEvent\<close>: \<open>sender_id\<close>, \<open>receiver_id\<close>, \<open>group_chat_id?\<close>, \<open>is_group\<close>.\<close>

datatype typing_event = TypingEvent string string "string option" bool

fun handleTyping_scoped :: "chat_props \<Rightarrow> typing_event \<Rightarrow> nat \<Rightarrow> typing_state \<Rightarrow> typing_state" where
  \<comment> \<open>debounced variant: the callback registered with \<open>onTyping\<close>\<close>
  "handleTyping_scoped p (TypingEvent ev_sender ev_receiver ev_group ev_is_group) now st =
     (if isGroup p then
        (if ev_is_group \<and> ev_group = Some (chatId p) \<and> Some ev_sender \<noteq> user_id p
         then (setTimeout_hide now 3000 (clearTimeout (typingTimeout st) (st\<lparr>isTyping := True\<rparr>)))
                \<lparr>typingTimeout := Some (next_handle st)\<rparr>
         else st)
      else
        (if \<not> ev_is_group \<and> Some ev_sender = receiverId p \<and> Some ev_receiver = user_id p
         then (setTimeout_hide now 3000 (clearTimeout (typingTimeout st) (st\<lparr>isTyping := True\<rparr>)))
                \<lparr>typingTimeout := Some (next_handle st)\<rparr>
         else st))"

text \<open>
  A run of the socket variant over typing signals with their arrival times: callbacks due
  by the arrival time run before the signal is handled.
\<close>

datatype typing_signal = Typing | GroupTyping string string

fun typing_step :: "chat_props \<Rightarrow> typing_signal \<Rightarrow> nat \<Rightarrow> typing_state \<Rightarrow> typing_state" where
  "typing_step p Typing now st = handleTyping now st"
| "typing_step p (GroupTyping userId groupId) now st = handleGroupTyping p userId groupId now st"

fun typing_run :: "chat_props \<Rightarrow> (nat \<times> typing_signal) list \<Rightarrow> typing_state \<Rightarrow> typing_state" where
  "typing_run p [] st = st"
| "typing_run p ((now, sg) # es) st = typing_run p es (typing_step p sg now (fire_due now st))"

fun scoped_run :: "chat_props \<Rightarrow> (nat \<times> typing_event) list \<Rightarrow> typing_state \<Rightarrow> typing_state" where
  "scoped_run p [] st = st"
| "scoped_run p ((now, ev) # es) st = scoped_run p es (handleTyping_scoped p ev now (fire_due now st))"

text \<open>
  For stating when the indicator of the debounced variant is shown: the guard of the scoped
  handler, and the arrival time of the last signal that passes it.
\<close>

fun accepted :: "chat_props \<Rightarrow> typing_event \<Rightarrow> bool" where
  "accepted p (TypingEvent ev_sender ev_receiver ev_group ev_is_group) =
     (if isGroup p then ev_is_group \<and> ev_group = Some (chatId p) \<and> Some ev_sender \<noteq> user_id p
      else \<not> ev_is_group \<and> Some ev_sender = receiverId p \<and> Some ev_receiver = user_id p)"

fun last_signal :: "chat_props \<Rightarrow> (nat \<times> typing_event) list \<Rightarrow> nat option" where
  "last_signal p [] = None"
| "last_signal p ((now, ev) # es) =
     (case last_signal p es of
        Some s \<Rightarrow> Some s
      | None \<Rightarrow> if accepted p ev then Some now else None)"

definition kept :: "typing_state \<Rightarrow> nat option \<Rightarrow> nat \<Rightarrow> bool" where
  \<comment> \<open>the state at time \<open>now\<close> when the last accepted signal came at \<open>l\<close>: the indicator is
      hidden with no callback left, or shown with the one kept callback due 3000 ms after \<open>l\<close>\<close>
  "kept st l now =
     (case l of
        None \<Rightarrow> pending st = [] \<and> \<not> isTyping st
      | Some s \<Rightarrow>
          (pending st = [] \<and> \<not> isTyping st \<and> s + 3000 \<le> now) \<or>
          (isTyping st \<and> pending st = [(the (typingTimeout st), s + 3000)] \<and>
           typingTimeout st \<noteq> None \<and> now < s + 3000))"

section \<open>Typing signals of the sending side\<close>

text \<open>The payloads of \<open>socket.emit('group_typing', ...)\<close> and \<open>socket.emit('typing', ...)\<close>.\<close>

datatype emit =
  EmitGroupTyping string "string option"
  | EmitTyping "string option" "string option" bool

definition onChange :: "chat_props \<Rightarrow> bool \<Rightarrow> string \<Rightarrow> emit list" where
  \<comment> \<open>socket variant, the input's \<open>onChange\<close>; \<open>connected\<close> stands for \<open>socket && connected\<close>\<close>
  "onChange p connected new_value =
     (if connected \<and> new_value \<noteq> [] then
        (if isGroup p then [EmitGroupTyping (chatId p) (user_id p)]
         else [EmitTyping (receiverId p) None False])
      else [])"

fun onChange_run :: "chat_props \<Rightarrow> bool \<Rightarrow> (int \<times> string) list \<Rightarrow> (int \<times> emit) list" where
  \<comment> \<open>keystrokes with the time of each; the result is every emit with its time\<close>
  "onChange_run p connected [] = []"
| "onChange_run p connected ((now, v) # ks) =
     map (Pair now) (onChange p connected v) @ onChange_run p connected ks"

text \<open>
  The debounced variant keeps \<open>lastTypingEmitRef\<close> and \<open>emitTypingTimeoutRef\<close>. The
  callback it schedules tests \<open>socket && connected && newMessage.length > 0\<close> with the values
  of the render that created the handler, that is, the text before the keystroke: a scheduled
  callback is its handle, its due time and the value of that test.
\<close>

record emit_state =
  newMessage :: string
  lastTypingEmit :: int
  emitTypingTimeout :: "nat option"
  emit_pending :: "(nat \<times> int \<times> bool) list"
  emit_next :: nat

definition emit_init :: emit_state where
  "emit_init = \<lparr>newMessage = [], lastTypingEmit = 0, emitTypingTimeout = None,
                 emit_pending = [], emit_next = 1\<rparr>"

definition typing_payload :: "chat_props \<Rightarrow> emit" where
  "typing_payload p =
     EmitTyping (if isGroup p then Some (chatId p) else receiverId p)
                (if isGroup p then None else receiverId p) (isGroup p)"

definition clear_emit_timer :: "nat option \<Rightarrow> emit_state \<Rightarrow> emit_state" where
  "clear_emit_timer h st =
     (case h of None \<Rightarrow> st
      | Some i \<Rightarrow> st\<lparr>emit_pending := filter (\<lambda>t. fst t \<noteq> i) (emit_pending st)\<rparr>)"

definition onChange_debounced ::
  "chat_props \<Rightarrow> bool \<Rightarrow> int \<Rightarrow> string \<Rightarrow> emit_state \<Rightarrow> (int \<times> emit) list \<times> emit_state" where
  "onChange_debounced p connected now new_value st =
     (if connected \<and> new_value \<noteq> [] then
        (if now - lastTypingEmit st > 1000 then
           ([(now, typing_payload p)],
            (clear_emit_timer (emitTypingTimeout st) st)\<lparr>newMessage := new_value, lastTypingEmit := now\<rparr>)
         else if emitTypingTimeout st = None then
           ([],
            st\<lparr>newMessage := new_value,
               emitTypingTimeout := Some (emit_next st),
               emit_pending := emit_pending st @
                 [(emit_next st, now + max 0 (1000 - (now - lastTypingEmit st)),
                   connected \<and> newMessage st \<noteq> [])],
               emit_next := Suc (emit_next st)\<rparr>)
         else ([], st\<lparr>newMessage := new_value\<rparr>))
      else
        ([], if emitTypingTimeout st \<noteq> None
             then (clear_emit_timer (emitTypingTimeout st) st)\<lparr>newMessage := new_value, emitTypingTimeout := None\<rparr>
             else st\<lparr>newMessage := new_value\<rparr>))"

fun run_callback :: "chat_props \<Rightarrow> int \<Rightarrow> nat \<times> int \<times> bool \<Rightarrow> (int \<times> emit) list \<times> emit_state \<Rightarrow> (int \<times> emit) list \<times> emit_state" where
  \<comment> \<open>the scheduled callback runs at \<open>now\<close>: it emits if its test holds, and clears the ref\<close>
  "run_callback p now (h, due, test) (out, st) =
     (if test then (out @ [(now, typing_payload p)], st\<lparr>lastTypingEmit := now, emitTypingTimeout := None\<rparr>)
      else (out, st\<lparr>emitTypingTimeout := None\<rparr>))"

definition fire_emit_timers :: "chat_props \<Rightarrow> int \<Rightarrow> emit_state \<Rightarrow> (int \<times> emit) list \<times> emit_state" where
  \<comment> \<open>the event loop at \<open>now\<close>: the callbacks due by then run, in the order they were scheduled\<close>
  "fire_emit_timers p now st =
     foldl (\<lambda>acc t. run_callback p now t acc)
       ([], st\<lparr>emit_pending := filter (\<lambda>t. \<not> fst (snd t) \<le> now) (emit_pending st)\<rparr>)
       (filter (\<lambda>t. fst (snd t) \<le> now) (emit_pending st))"

definition handleSend :: "emit_state \<Rightarrow> emit_state" where
  \<comment> \<open>what \<open>handleSend\<close> does to the input and the typing refs once the message is posted\<close>
  "handleSend st =
     (if emitTypingTimeout st \<noteq> None
      then (clear_emit_timer (emitTypingTimeout st) st)
             \<lparr>newMessage := [], lastTypingEmit := 0, emitTypingTimeout := None\<rparr>
      else st\<lparr>newMessage := [], lastTypingEmit := 0\<rparr>)"

text \<open>
  What happens to the input: a keystroke (with the value of \<open>socket && connected\<close> and the
  new text), the event loop running the due callbacks, or a message sent. A callback may run
  late, so it runs only at a \<open>Tick\<close>.
\<close>

datatype input_event = Key bool string | Tick | Sent

fun input_step :: "chat_props \<Rightarrow> int \<Rightarrow> input_event \<Rightarrow> emit_state \<Rightarrow> (int \<times> emit) list \<times> emit_state" where
  "input_step p now (Key connected v) st = onChange_debounced p connected now v st"
| "input_step p now Tick st = fire_emit_timers p now st"
| "input_step p now Sent st = ([], handleSend st)"

fun input_run :: "chat_props \<Rightarrow> (int \<times> input_event) list \<Rightarrow> emit_state \<Rightarrow> (int \<times> emit) list" where
  "input_run p [] st = []"
| "input_run p ((now, e) # es) st =
     fst (input_step p now e st) @ input_run p es (snd (input_step p now e st))"

fun gaps_ok :: "int list \<Rightarrow> bool" where
  \<comment> \<open>any two consecutive times are at least 1000 ms apart\<close>
  "gaps_ok [] = True"
| "gaps_ok [t] = True"
| "gaps_ok (t # u # ts) = (t + 1000 \<le> u \<and> gaps_ok (u # ts))"

definition one_timer :: "emit_state \<Rightarrow> bool" where
  \<comment> \<open>at most one callback is scheduled; the ref holds its handle and it is due no earlier
      than 1000 ms after the last emit\<close>
  "one_timer st =
     (emit_pending st = [] \<or>
      (emitTypingTimeout st \<noteq> None \<and> length (emit_pending st) = 1 \<and>
       fst (hd (emit_pending st)) = the (emitTypingTimeout st) \<and>
       lastTypingEmit st + 1000 \<le> fst (snd (hd (emit_pending st)))))"

fun typing_continues :: "input_event \<Rightarrow> bool" where
  \<comment> \<open>the user goes on typing: anything but sending the message\<close>
  "typing_continues Sent = False"
| "typing_continues e = True"

section \<open>Presence\<close>

text \<open>
  \<open>SocketProvider\<close>: the \<open>connect\<close> and \<open>disconnect\<close> handlers set the provider's own
  state \<open>connected\<close> and send \<open>PUT /users/status/me\<close> with \<open>is_online\<close>; a failure of the
  request is caught and logged. Each is given here as the new value of \<open>connected\<close> and the
  request sent. What becomes of the request is decided by the server.
\<close>

datatype status_request = PutStatus bool

definition on_connect :: "bool \<times> status_request" where
  "on_connect = (True, PutStatus True)"

definition on_disconnect :: "bool \<times> status_request" where
  "on_disconnect = (False, PutStatus False)"

text \<open>
  Modelled from the spec: the Connection Registry and the Presence Tracker (sections 3, 4.1
  and 4.2), which run on the server and are not part of the sources. A connection has an
  identifier, a user and an organization, and belongs to exactly one user: registering an
  identifier that is registered already changes nothing. Registering the first connection of
  a user is the transition \<open>came-online\<close>, which sets the user's online flag; registering a
  further one is no transition. Deregistering the last connection of a user is the
  transition \<open>went-offline\<close>, which clears the flag and sets last-seen to the timestamp;
  deregistering another one, or an identifier that is not registered, is no transition.
\<close>

record connection =
  conn_id :: nat
  conn_user :: string
  conn_org :: string

record presence_record =
  online :: bool
  last_seen :: "nat option"

record registry =
  connections :: "connection list"
  presence :: "string \<Rightarrow> presence_record"

definition registry_init :: registry where
  "registry_init = \<lparr>connections = [], presence = (\<lambda>u. \<lparr>online = False, last_seen = None\<rparr>)\<rparr>"

definition activeConnections :: "registry \<Rightarrow> string \<Rightarrow> nat list" where
  "activeConnections st u = map conn_id (filter (\<lambda>c. conn_user c = u) (connections st))"

definition register :: "nat \<Rightarrow> string \<Rightarrow> string \<Rightarrow> registry \<Rightarrow> registry" where
  "register c u org st =
     (if c \<in> set (map conn_id (connections st)) then st
      else st\<lparr>connections := connections st @ [\<lparr>conn_id = c, conn_user = u, conn_org = org\<rparr>],
              presence := (if activeConnections st u = []
                           then (presence st)(u := (presence st u)\<lparr>online := True\<rparr>)
                           else presence st)\<rparr>)"

definition deregister :: "nat \<Rightarrow> nat \<Rightarrow> registry \<Rightarrow> registry" where
  "deregister c ts st =
     (case List.find (\<lambda>x. conn_id x = c) (connections st) of
        None \<Rightarrow> st
      | Some x \<Rightarrow>
          st\<lparr>connections := filter (\<lambda>y. conn_id y \<noteq> c) (connections st),
             presence := (if filter (\<lambda>y. conn_user y = conn_user x)
                                (filter (\<lambda>y. conn_id y \<noteq> c) (connections st)) = []
                          then (presence st)(conn_user x := \<lparr>online = False, last_seen = Some ts\<rparr>)
                          else presence st)\<rparr>)"

datatype registry_event = Register nat string string | Deregister nat nat

fun registry_step :: "registry_event \<Rightarrow> registry \<Rightarrow> registry" where
  "registry_step (Register c u org) st = register c u org st"
| "registry_step (Deregister c ts) st = deregister c ts st"

fun registry_run :: "registry_event list \<Rightarrow> registry \<Rightarrow> registry" where
  "registry_run [] st = st"
| "registry_run (e # es) st = registry_run es (registry_step e st)"

definition exact :: "registry \<Rightarrow> bool" where
  \<comment> \<open>no connection identifier is registered twice, and a user's flag is set exactly when
      the user has a connection\<close>
  "exact st =
     (distinct (map conn_id (connections st)) \<and>
      (\<forall>u. online (presence st u) = (activeConnections st u \<noteq> [])))"

section \<open>Group membership and recipient resolution\<close>

text \<open>
  \<open>GroupMembersList.handleAdd\<close>: the text of the input is split at commas, each piece is
  trimmed and the empty pieces are dropped; the result is what \<open>groupApi.addMembers\<close> is
  called with. \<open>None\<close> is the early return on an empty input. The component checks nothing
  about organizations.
\<close>

fun split_on :: "char \<Rightarrow> string \<Rightarrow> string list" where
  "split_on c [] = [[]]"
| "split_on c (x # xs) =
     (if x = c then [] # split_on c xs
      else (case split_on c xs of [] \<Rightarrow> [[x]] | w # ws \<Rightarrow> (x # w) # ws))"

definition is_space :: "char \<Rightarrow> bool" where
  \<comment> \<open>the ASCII white space that \<open>trim\<close> removes: space, tab, line feed, vertical tab, form feed, carriage return\<close>
  "is_space c = (c \<in> set [CHR '' '', CHR 0x09, CHR 0x0A, CHR 0x0B, CHR 0x0C, CHR 0x0D])"

definition trim :: "string \<Rightarrow> string" where
  "trim s = rev (dropWhile is_space (rev (dropWhile is_space s)))"

definition handleAdd :: "string \<Rightarrow> string list option" where
  "handleAdd addingUserId =
     (if addingUserId = [] then None
      else Some (filter (\<lambda>s. s \<noteq> []) (map trim (split_on CHR '','' addingUserId))))"

text \<open>
  Modelled from the spec: the Room/Scope Router (\<open>resolveRecipients\<close>), which runs on the
  server and is not part of the sources. A scope is a 1:1 pair or a group, each with its
  organization; the recipients of a pair are its two peers, those of a group the current
  member snapshot; if the organization of any resolved recipient does not match the scope's,
  the whole resolution fails closed: an error and the empty set. \<open>orgOf\<close> gives the
  organization of a user (the auth collaborator), \<open>loadMembership\<close> the members of a group.
\<close>

datatype scope = DirectScope string string string | GroupScope string string

datatype route_error = ValidationError

fun scope_org :: "scope \<Rightarrow> string" where
  "scope_org (DirectScope org peerA peerB) = org"
| "scope_org (GroupScope org groupId) = org"

fun resolved :: "(string \<Rightarrow> string list) \<Rightarrow> scope \<Rightarrow> string list" where
  "resolved loadMembership (DirectScope org peerA peerB) = [peerA, peerB]"
| "resolved loadMembership (GroupScope org groupId) = loadMembership groupId"

definition resolveRecipients ::
  "(string \<Rightarrow> string option) \<Rightarrow> (string \<Rightarrow> string list) \<Rightarrow> scope \<Rightarrow> route_error option \<times> string list" where
  "resolveRecipients orgOf loadMembership sc =
     (if list_all (\<lambda>u. orgOf u = Some (scope_org sc)) (resolved loadMembership sc)
      then (None, resolved loadMembership sc)
      else (Some ValidationError, []))"

section \<open>Example data\<close>

definition msg_hello :: message where
  \<comment> \<open>a 1:1 message from A to B, with no delivery status yet\<close>
  "msg_hello = \<lparr>id_msg = ''m1'', sender_id = ''A'', receiver_id = Some ''B'', group_id = None,
     group_chat_id = None, content = ''hello'', reply_to = None, edited = False, edited_at = None,
     deleted = False, reactions = None, delivery_status = None, created_at = ''t0'',
     sender_name = Some ''Ann'', reply_to_content = None, quoted_message = None, type = None,
     attachment_url = None, attachment_name = None\<rparr>"

definition msg_other :: message where
  "msg_other = \<lparr>id_msg = ''m2'', sender_id = ''B'', receiver_id = Some ''A'', group_id = None,
     group_chat_id = None, content = ''hi'', reply_to = None, edited = False, edited_at = None,
     deleted = False, reactions = None, delivery_status = None, created_at = ''t1'',
     sender_name = Some ''Bob'', reply_to_content = None, quoted_message = None, type = None,
     attachment_url = None, attachment_name = None\<rparr>"


definition props_direct :: chat_props where
  \<comment> \<open>user A has the 1:1 chat with B open\<close>
  "props_direct = \<lparr>chatId = ''B'', isGroup = False, receiverId = Some ''B'', user_id = Some ''A''\<rparr>"

definition props_group :: chat_props where
  \<comment> \<open>user A has the group G open\<close>
  "props_group = \<lparr>chatId = ''G'', isGroup = True, receiverId = None, user_id = Some ''A''\<rparr>"

definition org_directory :: "string \<Rightarrow> string option" where
  "org_directory = map_of [(''A'', ''O1''), (''B'', ''O1''), (''X'', ''O2'')]"

section \<open>The conversation list\<close>

lemma append_unless_present_known:
  "id_msg m \<in> set (map id_msg prev) \<Longrightarrow> append_unless_present m prev = prev"
  by (auto simp: append_unless_present_def list_ex_iff)

lemma append_unless_present_distinct:
  "distinct (map id_msg prev) \<Longrightarrow> distinct (map id_msg (append_unless_present m prev))"
  by (auto simp: append_unless_present_def list_ex_iff)

lemma ids_handleMessageUpdate: "map id_msg (handleMessageUpdate u prev) = map id_msg prev"
  by (induction prev) (auto simp: handleMessageUpdate_def)

lemma ids_handleMessageDelete: "map id_msg (handleMessageDelete i prev) = map id_msg prev"
  by (induction prev) (auto simp: handleMessageDelete_def)

lemma ids_handleMessageEdited: "map id_msg (handleMessageEdited i c e t prev) = map id_msg prev"
  by (induction prev) (auto simp: handleMessageEdited_def)

lemma ids_on_messages_read: "map id_msg (on_messages_read p r t prev) = map id_msg prev"
  by (induction prev) (auto simp: on_messages_read_def)

lemma ids_on_message_delivered: "map id_msg (on_message_delivered i r t prev) = map id_msg prev"
  by (induction prev) (auto simp: on_message_delivered_def)

lemma socket_step_distinct:
  "distinct (map id_msg prev) \<Longrightarrow> distinct (map id_msg (fst (socket_step p e prev)))"
  by (cases e)
     (auto simp: handleNewMessage_def handleGroupMessage_def handleReceiveMessage_def
        append_unless_present_distinct ids_handleMessageUpdate ids_handleMessageDelete
        ids_handleMessageEdited ids_on_messages_read ids_on_message_delivered)

lemma socket_run_distinct:
  "distinct (map id_msg prev) \<Longrightarrow> distinct (map id_msg (socket_run p es prev))"
  by (induction es arbitrary: prev) (auto simp: socket_step_distinct)

lemma debounced_run_distinct:
  "distinct (map id_msg prev) \<Longrightarrow> distinct (map id_msg (debounced_run p ms prev))"
  by (induction ms arbitrary: prev)
     (auto simp: handleNewMessage_debounced_def append_unless_present_distinct)

text \<open>
  C10. An inbound message whose id is already in the list leaves the list as it is, in each of
  the four message handlers. Hence a list without repeated ids stays so under any sequence of
  socket events (the list starts empty), also after the search filter of the rendering.
\<close>

theorem inbound_message_ids_unique:
  "(id_msg m \<in> set (map id_msg prev) \<longrightarrow>
      fst (handleNewMessage p m prev) = prev \<and> fst (handleGroupMessage p m prev) = prev \<and>
      fst (handleReceiveMessage p m prev) = prev \<and> fst (handleNewMessage_debounced p m prev) = prev) \<and>
   (distinct (map id_msg prev) \<longrightarrow>
      distinct (map id_msg (filter shown (socket_run p es prev))) \<and>
      distinct (map id_msg (debounced_run p ms prev))) \<and>
   distinct (map id_msg (filter shown (socket_run p es []))) \<and>
   distinct (map id_msg (debounced_run p ms []))"
  by (simp add: handleNewMessage_def handleGroupMessage_def handleReceiveMessage_def
        handleNewMessage_debounced_def append_unless_present_known socket_run_distinct
        debounced_run_distinct distinct_map_filter)

theorem inbound_message_ids_unique_witness:
  "id_msg msg_hello \<in> set (map id_msg [msg_hello]) \<and>
   distinct (map id_msg [msg_hello]) \<and>
   fst (handleReceiveMessage props_direct msg_hello [msg_hello]) = [msg_hello] \<and>
   map id_msg (socket_run props_direct
       [ReceiveMessage msg_hello, NewMessage msg_hello, ReceiveMessage msg_other] [msg_hello])
     = [''m1'', ''m2''] \<and>
   distinct (map id_msg (filter (\<lambda>m. \<not> deleted m) (socket_run props_direct
       [ReceiveMessage msg_hello, NewMessage msg_hello, ReceiveMessage msg_other] [msg_hello])))"
proof -
  have known: "id_msg msg_hello \<in> set (map id_msg [msg_hello])"
    and dist: "distinct (map id_msg [msg_hello])"
    by simp_all
  note unique = inbound_message_ids_unique [of msg_hello "[msg_hello]" props_direct "\<lambda>m. \<not> deleted m"
      "[ReceiveMessage msg_hello, NewMessage msg_hello, ReceiveMessage msg_other]"]
  from unique known
  have same: "fst (handleReceiveMessage props_direct msg_hello [msg_hello]) = [msg_hello]"
    by blast
  from unique dist
  have once: "distinct (map id_msg (filter (\<lambda>m. \<not> deleted m) (socket_run props_direct
      [ReceiveMessage msg_hello, NewMessage msg_hello, ReceiveMessage msg_other] [msg_hello])))"
    by blast
  have ids: "map id_msg (socket_run props_direct
      [ReceiveMessage msg_hello, NewMessage msg_hello, ReceiveMessage msg_other] [msg_hello])
        = [''m1'', ''m2'']"
    by (simp add: props_direct_def msg_hello_def msg_other_def handleReceiveMessage_def
          handleNewMessage_def is_direct_for_def append_unless_present_def)
  from known dist same ids once show ?thesis by simp
qed

text \<open>
  C8, as amended. The \<open>message_deleted\<close> handler keeps the length and the order of the list,
  sets \<open>deleted\<close> on the messages with the given id and changes nothing else: every other
  field stays, the content included, which is not cleared. The message's own bubble, in both
  variants, is the notice of a deleted message. Every other message, and its bubble, is the
  same as before.
\<close>

theorem tombstone_keeps_content:
  assumes "i < length prev"
  shows "length (handleMessageDelete mid prev) = length prev \<and>
     handleMessageDelete mid prev ! i =
       (if id_msg (prev ! i) = mid then (prev ! i)\<lparr>deleted := True\<rparr> else prev ! i) \<and>
     content (handleMessageDelete mid prev ! i) = content (prev ! i) \<and>
     MessageBubble isOwn (handleMessageDelete mid prev ! i) q =
       (if id_msg (prev ! i) = mid then [DeletedNotice] else MessageBubble isOwn (prev ! i) q) \<and>
     MessageBubble_debounced isOwn (handleMessageDelete mid prev ! i) =
       (if id_msg (prev ! i) = mid then [DeletedNotice] else MessageBubble_debounced isOwn (prev ! i))"
  using assms by (simp add: handleMessageDelete_def MessageBubble_def MessageBubble_debounced_def)

theorem tombstone_keeps_content_witness:
  "0 < length [msg_hello, msg_other] \<and>
   content (handleMessageDelete ''m1'' [msg_hello, msg_other] ! 0) = ''hello'' \<and>
   deleted (handleMessageDelete ''m1'' [msg_hello, msg_other] ! 0) \<and>
   MessageBubble True (handleMessageDelete ''m1'' [msg_hello, msg_other] ! 0) None = [DeletedNotice]"
proof -
  have len: "0 < length [msg_hello, msg_other]"
    by simp
  have first: "id_msg ([msg_hello, msg_other] ! 0) = ''m1''"
    by (simp add: msg_hello_def)
  from tombstone_keeps_content [OF len, of "''m1''" True None] first
  have same: "handleMessageDelete ''m1'' [msg_hello, msg_other] ! 0 = msg_hello\<lparr>deleted := True\<rparr>"
    and shown: "MessageBubble True (handleMessageDelete ''m1'' [msg_hello, msg_other] ! 0) None
                  = [DeletedNotice]"
    by (simp_all add: MessageBubble_def)
  from same have "content (handleMessageDelete ''m1'' [msg_hello, msg_other] ! 0) = ''hello''"
    and "deleted (handleMessageDelete ''m1'' [msg_hello, msg_other] ! 0)"
    by (simp_all add: msg_hello_def)
  with len shown show ?thesis by simp
qed

text \<open>
  C8 as stated fails: after the \<open>message_deleted\<close> event for \<open>m1\<close> the content of \<open>m1\<close>
  is still there.
\<close>

theorem tombstone_content_not_cleared:
  "content (handleMessageDelete ''m1'' [msg_hello, msg_other] ! 0) \<noteq> []"
  by (simp add: handleMessageDelete_def msg_hello_def msg_other_def)

text \<open>
  The kept content is not out of sight: the bubble of a reply that is given the deleted
  message as its quote prints the content.
\<close>

lemma deleted_content_still_quoted:
  assumes "\<not> deleted reply" "truthy (reply_to reply)" "content m \<noteq> []"
  shows "QuoteContent (content m) \<in>
           set (MessageBubble isOwn reply (Some (as_quoted (m\<lparr>deleted := True\<rparr>))))"
  using assms by (simp add: MessageBubble_def quote_block_def or_else_def as_quoted_def)

section \<open>Delivery status\<close>

lemma on_messages_read_twice:
  "on_messages_read p r t (on_messages_read p r t s) = on_messages_read p r t s"
  by (induction s) (auto simp: on_messages_read_def status_or_empty_def)

lemma on_message_delivered_twice:
  "on_message_delivered i r t (on_message_delivered i r t s) = on_message_delivered i r t s"
  by (induction s) (auto simp: on_message_delivered_def status_or_empty_def)

text \<open>
  Neither handler takes \<open>delivered\<close> back: an entry whose \<open>delivered\<close> is true has it true
  afterwards.
\<close>

lemma delivered_flag_kept:
  assumes "i < length prev"
    and "map_option delivered (map_of (status_or_empty (prev ! i)) k) = Some (Some True)"
  shows "map_option delivered (map_of (status_or_empty (on_messages_read p r ts prev ! i)) k)
           = Some (Some True) \<and>
         map_option delivered (map_of (status_or_empty (on_message_delivered mid r' ts' prev ! i)) k)
           = Some (Some True)"
  using assms
  by (auto simp: on_messages_read_def on_message_delivered_def status_or_empty_def read_entry_def
        delivered_entry_def AList.update_conv')

text \<open>
  C5. Handling the same \<open>messages_read\<close> event, or the same \<open>message_delivered\<close> event, a
  second time gives the message list of the first time; neither handler issues a request or
  emits an event, so both applications together produce at most one.
\<close>

theorem acknowledgment_idempotent:
  "fst (socket_step p (MessagesRead r t) (fst (socket_step p (MessagesRead r t) s)))
     = fst (socket_step p (MessagesRead r t) s) \<and>
   fst (socket_step p (MessageDelivered i r t) (fst (socket_step p (MessageDelivered i r t) s)))
     = fst (socket_step p (MessageDelivered i r t) s) \<and>
   length (snd (socket_step p (MessagesRead r t) s) @
           snd (socket_step p (MessagesRead r t) (fst (socket_step p (MessagesRead r t) s)))) \<le> 1 \<and>
   length (snd (socket_step p (MessageDelivered i r t) s) @
           snd (socket_step p (MessageDelivered i r t) (fst (socket_step p (MessageDelivered i r t) s)))) \<le> 1"
  by (simp add: on_messages_read_twice on_message_delivered_twice)

text \<open>
  C1 at a failing input. A's message \<open>m1\<close> to B is marked read by \<open>messages_read\<close>; the
  \<open>message_delivered\<close> event for the same message and recipient that arrives afterwards
  replaces B's entry by one without \<open>read\<close>, and the bubble no longer shows the message as
  read.
\<close>

theorem delivered_after_read_drops_read:
  "isRead True (on_messages_read props_direct (Some ''B'') (Some ''t1'') [msg_hello] ! 0) \<and>
   \<not> isRead True (on_message_delivered ''m1'' (Some ''B'') (Some ''t2'')
                    (on_messages_read props_direct (Some ''B'') (Some ''t1'') [msg_hello]) ! 0) \<and>
   map_option read (map_of (status_or_empty
       (on_messages_read props_direct (Some ''B'') (Some ''t1'') [msg_hello] ! 0)) ''B'')
     = Some (Some True) \<and>
   map_option read (map_of (status_or_empty
       (on_message_delivered ''m1'' (Some ''B'') (Some ''t2'')
          (on_messages_read props_direct (Some ''B'') (Some ''t1'') [msg_hello]) ! 0)) ''B'')
     = Some None"
  by (simp add: on_messages_read_def on_message_delivered_def props_direct_def msg_hello_def
        isRead_def deliveryStatus_def lookup_status_def truthy_def key_of_def status_or_empty_def
        read_entry_def delivered_entry_def)




















section \<open>Typing\<close>

lemma handleTyping_scoped_eq:
  "handleTyping_scoped p ev now st =
     (if accepted p ev
      then \<lparr>isTyping = True, typingTimeout = Some (next_handle st),
            pending = filter (\<lambda>t. Some (fst t) \<noteq> typingTimeout st) (pending st) @
                        [(next_handle st, now + 3000)],
            next_handle = Suc (next_handle st)\<rparr>
      else st)"
  by (cases ev) (auto simp: setTimeout_hide_def clearTimeout_def split: option.splits)

lemma kept_fire:
  assumes "kept st l now" "now \<le> t"
  shows "kept (fire_due t st) l t"
  using assms by (auto simp: kept_def fire_due_def split: option.splits)

lemma kept_step:
  assumes "kept st l now"
  shows "kept (handleTyping_scoped p ev now st) (if accepted p ev then Some now else l) now"
  using assms by (auto simp: kept_def handleTyping_scoped_eq split: option.splits)

lemma last_signal_snoc:
  "last_signal p (es @ [(now, ev)]) = (if accepted p ev then Some now else last_signal p es)"
  by (induction es) (auto split: option.splits)

lemma scoped_run_snoc:
  "scoped_run p (es @ [(now, ev)]) st =
     handleTyping_scoped p ev now (fire_due now (scoped_run p es st))"
  by (induction es arbitrary: st) auto

lemma kept_run:
  assumes "sorted (map fst es)"
  shows "kept (scoped_run p es typing_init) (last_signal p es)
           (if es = [] then 0 else fst (last es))"
  using assms
proof (induction es rule: rev_induct)
  case Nil
  then show ?case by (simp add: kept_def typing_init_def)
next
  case (snoc e es)
  obtain now ev where e: "e = (now, ev)" by (cases e)
  from snoc.prems have srt: "sorted (map fst es)" and le: "\<forall>x \<in> set es. fst x \<le> now"
    by (auto simp: e sorted_append)
  have "(if es = [] then 0 else fst (last es)) \<le> now"
    using le by auto
  with snoc.IH [OF srt]
  have "kept (fire_due now (scoped_run p es typing_init)) (last_signal p es) now"
    by (rule kept_fire)
  then show ?case
    using kept_step [of "fire_due now (scoped_run p es typing_init)" "last_signal p es" now p ev]
    by (simp add: e scoped_run_snoc last_signal_snoc)
qed

text \<open>
  The scoped handler of the debounced variant resets its one timer. As long as nothing but
  typing signals reaches the indicator (the props stay as they are and no message is sent,
  which hides the indicator at once) and the callbacks run when they are due: after signals
  that arrive in the order of their times, the indicator is shown at a later time \<open>t\<close>
  exactly when an accepted signal came and \<open>t\<close> is less than 3000 ms after the last one.
\<close>

lemma scoped_typing_shown_for_3s:
  assumes "sorted (map fst es)" "list_all (\<lambda>e. fst e \<le> t) es"
  shows "isTyping (fire_due t (scoped_run p es typing_init)) =
           (case last_signal p es of None \<Rightarrow> False | Some s \<Rightarrow> t < s + 3000)"
proof -
  have "(if es = [] then 0 else fst (last es)) \<le> t"
    using assms(2) by (auto simp: list_all_iff)
  with kept_run [OF assms(1), of p]
  have "kept (fire_due t (scoped_run p es typing_init)) (last_signal p es) t"
    by (rule kept_fire)
  then show ?thesis
    by (auto simp: kept_def split: option.splits)
qed

text \<open>
  C4 at a failing input. In the open group G the \<open>group_typing\<close> handler gets signals of B at
  0 ms and at 2000 ms. Each schedules its own callback and none is cleared, so the callback of
  the first signal hides the indicator at 3000 ms, one second after the latest signal. The
  \<open>typing\<close> handler of the same component clears the kept callback first: with the same
  arrival times the indicator stays until 5000 ms.
\<close>

theorem group_typing_hides_early:
  "isTyping (fire_due 2999 (typing_run props_group
       [(0, GroupTyping ''B'' ''G''), (2000, GroupTyping ''B'' ''G'')] typing_init)) \<and>
   \<not> isTyping (fire_due 3000 (typing_run props_group
       [(0, GroupTyping ''B'' ''G''), (2000, GroupTyping ''B'' ''G'')] typing_init)) \<and>
   isTyping (fire_due 4999 (typing_run props_group [(0, Typing), (2000, Typing)] typing_init)) \<and>
   \<not> isTyping (fire_due 5000 (typing_run props_group [(0, Typing), (2000, Typing)] typing_init))"
  by (simp add: props_group_def typing_init_def handleGroupTyping_def handleTyping_def
        setTimeout_hide_def clearTimeout_def fire_due_def)

lemma one_timer_init: "one_timer emit_init"
  by (simp add: one_timer_def emit_init_def)

lemma one_timer_cases:
  assumes "one_timer st"
  obtains "emit_pending st = []"
  | h due test where "emit_pending st = [(h, due, test)]" "emitTypingTimeout st = Some h"
      "lastTypingEmit st + 1000 \<le> due"
proof (cases "emit_pending st")
  case Nil
  then show ?thesis using that(1) by simp
next
  case (Cons t ts)
  with assms have "ts = []" "emitTypingTimeout st = Some (fst t)"
    "lastTypingEmit st + 1000 \<le> fst (snd t)"
    by (auto simp: one_timer_def)
  with Cons show ?thesis using that(2) [of "fst t" "fst (snd t)" "snd (snd t)"] by simp
qed

lemma onChange_debounced_inv:
  assumes "one_timer st"
  shows "one_timer (snd (onChange_debounced p c now v st))"
  using assms
proof (cases rule: one_timer_cases)
  case 1
  then show ?thesis
    by (auto simp: one_timer_def onChange_debounced_def clear_emit_timer_def split: option.splits)
next
  case (2 h due test)
  then show ?thesis
    by (auto simp: one_timer_def onChange_debounced_def clear_emit_timer_def)
qed

lemma onChange_debounced_out:
  assumes "one_timer st"
  shows "gaps_ok (lastTypingEmit st # map fst (fst (onChange_debounced p c now v st))) \<and>
         lastTypingEmit (snd (onChange_debounced p c now v st)) =
           last (lastTypingEmit st # map fst (fst (onChange_debounced p c now v st)))"
  using assms
  by (auto simp: one_timer_def onChange_debounced_def clear_emit_timer_def split: option.splits)

lemma fire_none:
  assumes "emit_pending st = []"
  shows "fire_emit_timers p now st = ([], st)"
  using assms by (simp add: fire_emit_timers_def)

lemma fire_single:
  assumes "emit_pending st = [(h, due, test)]"
  shows "fire_emit_timers p now st =
     (if due \<le> now then
        (if test then ([(now, typing_payload p)],
                       st\<lparr>emit_pending := [], lastTypingEmit := now, emitTypingTimeout := None\<rparr>)
         else ([], st\<lparr>emit_pending := [], emitTypingTimeout := None\<rparr>))
      else ([], st))"
  using assms by (simp add: fire_emit_timers_def)

lemma fire_inv:
  assumes "one_timer st"
  shows "one_timer (snd (fire_emit_timers p now st))"
  using assms
proof (cases rule: one_timer_cases)
  case 1
  with assms show ?thesis by (simp add: fire_none)
next
  case (2 h due test)
  with assms show ?thesis by (simp add: fire_single one_timer_def)
qed

lemma fire_out:
  assumes "one_timer st"
  shows "gaps_ok (lastTypingEmit st # map fst (fst (fire_emit_timers p now st))) \<and>
         lastTypingEmit (snd (fire_emit_timers p now st)) =
           last (lastTypingEmit st # map fst (fst (fire_emit_timers p now st)))"
  using assms
proof (cases rule: one_timer_cases)
  case 1
  then show ?thesis by (simp add: fire_none)
next
  case (2 h due test)
  then show ?thesis by (simp add: fire_single)
qed

lemma input_step_inv:
  assumes "one_timer st"
  shows "one_timer (snd (input_step p now e st))"
proof (cases e)
  case (Key c v)
  with assms show ?thesis by (simp add: onChange_debounced_inv)
next
  case Tick
  with assms show ?thesis by (simp add: fire_inv)
next
  case Sent
  from assms show ?thesis
  proof (cases rule: one_timer_cases)
    case 1
    with Sent show ?thesis
      by (auto simp: one_timer_def handleSend_def clear_emit_timer_def split: option.splits)
  next
    case (2 h due test)
    with Sent show ?thesis by (simp add: one_timer_def handleSend_def clear_emit_timer_def)
  qed
qed

lemma input_step_out:
  assumes "one_timer st" "typing_continues e"
  shows "gaps_ok (lastTypingEmit st # map fst (fst (input_step p now e st))) \<and>
         lastTypingEmit (snd (input_step p now e st)) =
           last (lastTypingEmit st # map fst (fst (input_step p now e st)))"
  using assms by (cases e) (simp_all add: onChange_debounced_out fire_out)

lemma gaps_ok_join:
  assumes "gaps_ok (a # xs)" "gaps_ok (last (a # xs) # ys)"
  shows "gaps_ok (a # xs @ ys)"
  using assms by (induction xs arbitrary: a) (auto simp: neq_Nil_conv)

lemma gaps_ok_tl: "gaps_ok (a # xs) \<Longrightarrow> gaps_ok xs"
  by (cases xs) auto

lemma input_run_gaps:
  assumes "one_timer st" "list_all (\<lambda>e. typing_continues (snd e)) es"
  shows "gaps_ok (lastTypingEmit st # map fst (input_run p es st))"
  using assms
proof (induction es arbitrary: st)
  case Nil
  then show ?case by simp
next
  case (Cons x es)
  obtain now e where x: "x = (now, e)" by (cases x)
  let ?out = "map fst (fst (input_step p now e st))"
  let ?st = "snd (input_step p now e st)"
  from Cons.prems have cont: "typing_continues e"
    and rest: "list_all (\<lambda>e. typing_continues (snd e)) es"
    by (simp_all add: x)
  from input_step_out [OF Cons.prems(1) cont, of p now]
  have a: "gaps_ok (lastTypingEmit st # ?out)"
    and b: "lastTypingEmit ?st = last (lastTypingEmit st # ?out)"
    by simp_all
  from Cons.IH [OF input_step_inv [OF Cons.prems(1)] rest, of p now e]
  have "gaps_ok (last (lastTypingEmit st # ?out) # map fst (input_run p es ?st))"
    by (simp add: b)
  with a have "gaps_ok (lastTypingEmit st # ?out @ map fst (input_run p es ?st))"
    by (rule gaps_ok_join)
  then show ?case by (simp add: x)
qed

text \<open>
  The debounced variant does throttle: as long as no message is sent in between, any two
  consecutive typing emits are at least 1000 ms apart, whatever the times of the keystrokes
  and however late a scheduled callback runs; and a first keystroke emits at once.
\<close>

lemma debounced_emits_gaps_ok:
  assumes "list_all (\<lambda>e. typing_continues (snd e)) es"
  shows "gaps_ok (map fst (input_run p es emit_init))"
  using input_run_gaps [OF one_timer_init assms, of p] by (rule gaps_ok_tl)

lemma debounced_first_keystroke_emits:
  assumes "1000 < now" "v \<noteq> []"
  shows "input_run p ((now, Key True v) # es) emit_init =
           (now, typing_payload p) #
           input_run p es (emit_init\<lparr>newMessage := v, lastTypingEmit := now\<rparr>)"
  using assms by (simp add: onChange_debounced_def emit_init_def clear_emit_timer_def)

text \<open>
  C9 at a failing input. With the socket connected, the \<open>onChange\<close> of the socket variant
  emits on each keystroke that leaves text in the input: keystrokes at 5000 ms and 5010 ms
  give two typing signals 10 ms apart. The debounced variant emits once for the same
  keystrokes.
\<close>

theorem typing_emitted_per_keystroke:
  "map fst (onChange_run props_direct True [(5000, ''h''), (5010, ''hi'')]) = [5000, 5010] \<and>
   \<not> gaps_ok (map fst (onChange_run props_direct True [(5000, ''h''), (5010, ''hi'')])) \<and>
   map fst (input_run props_direct [(5000, Key True ''h''), (5010, Key True ''hi'')] emit_init) = [5000]"
  by (simp add: onChange_def props_direct_def onChange_debounced_def emit_init_def
        clear_emit_timer_def)

section \<open>Presence exactness\<close>

lemma exact_init: "exact registry_init"
  by (simp add: exact_def registry_init_def activeConnections_def)

lemma register_exact:
  assumes "exact st"
  shows "exact (register c u org st)"
  using assms by (auto simp: exact_def register_def activeConnections_def)

lemma find_connection:
  assumes "List.find (\<lambda>x. conn_id x = c) cs = Some x"
  shows "x \<in> set cs \<and> conn_id x = c"
  using assms by (induction cs) (auto split: if_splits)

lemma other_user_kept:
  assumes "distinct (map conn_id cs)" "x \<in> set cs" "conn_user x \<noteq> v"
  shows "filter (\<lambda>y. conn_user y = v) (filter (\<lambda>y. conn_id y \<noteq> conn_id x) cs) =
         filter (\<lambda>y. conn_user y = v) cs"
proof -
  from assms(1) have inj: "inj_on conn_id (set cs)"
    by (simp add: distinct_map)
  have "conn_id y \<noteq> conn_id x" if "y \<in> set cs" "conn_user y = v" for y
  proof
    assume "conn_id y = conn_id x"
    with inj that(1) assms(2) have "y = x" by (auto dest: inj_onD)
    with that(2) assms(3) show False by simp
  qed
  then show ?thesis
    by (auto intro: filter_cong)
qed

lemma deregister_exact:
  assumes "exact st"
  shows "exact (deregister c ts st)"
proof (cases "List.find (\<lambda>x. conn_id x = c) (connections st)")
  case None
  with assms show ?thesis by (simp add: deregister_def)
next
  case (Some x)
  then have x: "x \<in> set (connections st)" "conn_id x = c"
    using find_connection by fastforce+
  from assms have d: "distinct (map conn_id (connections st))"
    and on: "\<And>u. online (presence st u) = (filter (\<lambda>y. conn_user y = u) (connections st) \<noteq> [])"
    by (simp_all add: exact_def activeConnections_def)
  have d': "distinct (map conn_id (filter (\<lambda>y. conn_id y \<noteq> c) (connections st)))"
    using d by (simp add: distinct_map_filter)
  have "online (presence (deregister c ts st) v) = (activeConnections (deregister c ts st) v \<noteq> [])"
    for v
  proof (cases "v = conn_user x")
    case True
    have "online (presence st (conn_user x))"
      using on x(1) by (auto simp: filter_empty_conv)
    with True Some show ?thesis
      by (simp add: deregister_def activeConnections_def)
  next
    case False
    then have "filter (\<lambda>y. conn_user y = v) (filter (\<lambda>y. conn_id y \<noteq> c) (connections st)) =
         filter (\<lambda>y. conn_user y = v) (connections st)"
      using other_user_kept [OF d x(1), of v] x(2) by simp
    with False Some on show ?thesis
      by (simp add: deregister_def activeConnections_def)
  qed
  with d' Some show ?thesis
    by (simp add: exact_def deregister_def)
qed

lemma registry_run_exact:
  assumes "exact st"
  shows "exact (registry_run es st)"
  using assms
proof (induction es arbitrary: st)
  case Nil
  then show ?case by simp
next
  case (Cons e es)
  then show ?case by (cases e) (simp_all add: register_exact deregister_exact)
qed

text \<open>
  C3. After any sequence of registrations and deregistrations, and so at every time between
  two transitions, the online flag of every user is true exactly when the user's
  active-connection count is greater than zero. So the flag is never set while the count is
  zero, and a disconnect that leaves the user another connection does not clear it.
\<close>

theorem presence_exact:
  "online (presence (registry_run es registry_init) u) =
     (0 < length (activeConnections (registry_run es registry_init) u))"
  using registry_run_exact [OF exact_init, of es] by (simp add: exact_def)

text \<open>
  Two devices: user A registers the connections 1 and 2. When 1 disconnects the flag stays,
  with connection 2 left; when 2 disconnects too the flag is cleared and last-seen is the
  time of that disconnect.
\<close>

lemma second_connection_keeps_online:
  "online (presence (registry_run
       [Register 1 ''A'' ''O1'', Register 2 ''A'' ''O1'', Deregister 1 7] registry_init) ''A'') \<and>
   activeConnections (registry_run
       [Register 1 ''A'' ''O1'', Register 2 ''A'' ''O1'', Deregister 1 7] registry_init) ''A'' = [2] \<and>
   \<not> online (presence (registry_run
       [Register 1 ''A'' ''O1'', Register 2 ''A'' ''O1'', Deregister 1 7, Deregister 2 9]
       registry_init) ''A'') \<and>
   last_seen (presence (registry_run
       [Register 1 ''A'' ''O1'', Register 2 ''A'' ''O1'', Deregister 1 7, Deregister 2 9]
       registry_init) ''A'') = Some 9"
  by (simp add: registry_init_def register_def deregister_def activeConnections_def)

section \<open>Organization isolation\<close>

text \<open>
  C2. Whatever members a group was given (the component sends any ids that were typed) and
  whatever the pair, the recipients that resolution yields all belong to the organization of
  the scope; if any resolved user belongs to another organization, or to none, the result is
  the error with no recipient at all.
\<close>

theorem resolution_stays_in_organization:
  "(\<forall>u \<in> set (snd (resolveRecipients orgOf loadMembership sc)). orgOf u = Some (scope_org sc)) \<and>
   ((\<exists>u \<in> set (resolved loadMembership sc). orgOf u \<noteq> Some (scope_org sc)) \<longrightarrow>
      resolveRecipients orgOf loadMembership sc = (Some ValidationError, []))"
  by (auto simp: resolveRecipients_def list_all_iff)

theorem resolution_stays_in_organization_witness:
  "handleAdd ''B, X'' = Some [''B'', ''X''] \<and>
   resolveRecipients org_directory (\<lambda>g. [''A'', ''B'', ''X'']) (GroupScope ''O1'' ''G'')
     = (Some ValidationError, []) \<and>
   snd (resolveRecipients org_directory (\<lambda>g. [''A'', ''B'']) (GroupScope ''O1'' ''G'')) = [''A'', ''B''] \<and>
   list_all (\<lambda>u. org_directory u = Some ''O1'') [''A'', ''B'']"
proof -
  have add: "handleAdd ''B, X'' = Some [''B'', ''X'']"
    by (simp add: handleAdd_def trim_def is_space_def)
  have foreign: "\<exists>u \<in> set (resolved (\<lambda>g. [''A'', ''B'', ''X'']) (GroupScope ''O1'' ''G'')).
      org_directory u \<noteq> Some (scope_org (GroupScope ''O1'' ''G''))"
    by (simp add: org_directory_def)
  from resolution_stays_in_organization
         [of org_directory "\<lambda>g. [''A'', ''B'', ''X'']" "GroupScope ''O1'' ''G''"] foreign
  have closed: "resolveRecipients org_directory (\<lambda>g. [''A'', ''B'', ''X'']) (GroupScope ''O1'' ''G'')
     = (Some ValidationError, [])"
    by blast
  have same: "snd (resolveRecipients org_directory (\<lambda>g. [''A'', ''B'']) (GroupScope ''O1'' ''G'')) = [''A'', ''B'']"
    by (simp add: resolveRecipients_def org_directory_def)
  from resolution_stays_in_organization
         [of org_directory "\<lambda>g. [''A'', ''B'']" "GroupScope ''O1'' ''G''"] same
  have "list_all (\<lambda>u. org_directory u = Some ''O1'') [''A'', ''B'']"
    by simp
  with add closed same show ?thesis by simp
qed

end
